theory Spec2Isabelle
  imports Complex_Main
begin

section \<open>Exceptions\<close>

text \<open>
  The Python exceptions that matter to the dispatch core. \<open>SessionError\<close> stands for any
  \<open>Exception\<close> raised while a Telethon session is being established (\<open>login_account\<close>);
  \<open>BaseExc\<close> stands for an exception that is not a subclass of \<open>Exception\<close>
  (\<open>asyncio.CancelledError\<close>, \<open>KeyboardInterrupt\<close>), which no \<open>except Exception\<close>
  clause of the program catches.
\<close>

datatype py_exn = ZeroDivisionError | SessionError | BaseExc

section \<open>Quota store\<close>

text \<open>
  \<open>account_limits\<close> is a dict from phone number to a dict from ISO date to a count.
  Counts are Python ints. The calendar date \<open>datetime.date.today().isoformat()\<close> is an
  input of every operation that reads it (parameter \<open>today\<close>).
\<close>

type_synonym limits = "string \<rightharpoonup> (string \<rightharpoonup> int)"

definition ACCOUNT_DAILY_LIMIT :: int where
  "ACCOUNT_DAILY_LIMIT = 50"

text \<open>
  The file \<open>account_limits.json\<close>: absent, present with content on which the body of the
  \<open>try\<close> raises (invalid JSON, or a value that does not support \<open>in\<close>), or present with a
  dict of dicts.
\<close>

datatype limits_file = NoFile | BadJson | Json limits

text \<open>
  \<open>load_account_limits\<close>: the loop over \<open>list(data.keys())\<close> rewrites the entry of each key
  independently of the others, so it is the key-wise map below. A missing file and a
  caught exception both end in \<open>return {}\<close>.
\<close>

definition load_account_limits :: "string \<Rightarrow> limits_file \<Rightarrow> limits" where
  "load_account_limits today f =
     (case f of
        NoFile \<Rightarrow> Map.empty
      | BadJson \<Rightarrow> Map.empty
      | Json data \<Rightarrow>
          (\<lambda>phone. case data phone of
                      None \<Rightarrow> None
                    | Some r \<Rightarrow> if r today = None then Some [today \<mapsto> 0] else Some r))"

text \<open>
  \<open>save_account_limits\<close>: rewrites the whole file; an exception is logged and swallowed,
  the flag \<open>ok\<close> says whether the write went through.
\<close>

definition save_account_limits :: "bool \<Rightarrow> limits \<Rightarrow> limits_file \<Rightarrow> limits_file" where
  "save_account_limits ok lims f = (if ok then Json lims else f)"

text \<open>\<open>d.get(phone, {}).get(today, 0)\<close>, used by \<open>get_account_limit\<close> and \<open>get_next_account\<close>.\<close>

definition get_used :: "limits \<Rightarrow> string \<Rightarrow> string \<Rightarrow> int" where
  "get_used lims phone today =
     (case lims phone of
        None \<Rightarrow> 0
      | Some r \<Rightarrow> (case r today of None \<Rightarrow> 0 | Some c \<Rightarrow> c))"

section \<open>Accounts and the account manager\<close>

text \<open>
  An account is a dict read from the configuration. The fields kept are the ones the
  dispatch core reads: the phone number and the optional per-account pacing overrides
  (\<open>api_id\<close>, \<open>api_hash\<close> and \<open>session_name\<close> are only handed to Telethon).
\<close>

record account =
  phone_number :: string
  request_pause_min :: "real option"
  request_pause_max :: "real option"

text \<open>
  The fields of \<open>AccountManager\<close>. \<open>current_account_index\<close> starts at 0 and is only ever
  assigned \<open>(idx + 1) % n\<close>, so it is a natural number. \<open>clients\<close> maps a phone number to
  whether its cached client is connected.
\<close>

record manager =
  accounts :: "account list"
  current_account_index :: nat
  clients :: "string \<rightharpoonup> bool"
  batch_pause :: real
  account_limits :: limits

subsection \<open>Configuration\<close>

text \<open>
  The \<open>settings\<close> entry of the YAML document: absent, a dict (with or without
  \<open>batch_pause_seconds\<close>), or a value on which \<open>.get\<close> raises.
\<close>

datatype settings_entry = NoSettings | Settings "real option" | BadSettings

text \<open>
  The configuration file: absent, unreadable (the \<open>try\<close> raises before any field is
  assigned), or a document with an optional \<open>accounts\<close> list and a \<open>settings\<close> entry.
\<close>

datatype config_file = NoConfig | BadYaml | Yaml "account list option" settings_entry

text \<open>
  \<open>load_from_env\<close> builds one account from the environment or the prompt; that account is
  the parameter \<open>env_account\<close>.
\<close>

definition load_from_env :: "account \<Rightarrow> manager \<Rightarrow> manager" where
  "load_from_env env_account m = m\<lparr>accounts := [env_account]\<rparr>"

definition load_config :: "config_file \<Rightarrow> account \<Rightarrow> manager \<Rightarrow> manager" where
  "load_config cfg env_account m =
     (case cfg of
        NoConfig \<Rightarrow> load_from_env env_account m
      | BadYaml \<Rightarrow> load_from_env env_account m
      | Yaml accs st \<Rightarrow>
          (let m1 = (case accs of
                       None \<Rightarrow> m
                     | Some [] \<Rightarrow> m
                     | Some (a # as) \<Rightarrow> m\<lparr>accounts := a # as\<rparr>)
           in case st of
                NoSettings \<Rightarrow> m1
              | Settings bp \<Rightarrow>
                  m1\<lparr>batch_pause := (case bp of None \<Rightarrow> 120 | Some p \<Rightarrow> p)\<rparr>
              | BadSettings \<Rightarrow> load_from_env env_account m1))"

text \<open>\<open>AccountManager.__init__\<close>.\<close>

definition new_manager :: "string \<Rightarrow> limits_file \<Rightarrow> config_file \<Rightarrow> account \<Rightarrow> manager" where
  "new_manager today lf cfg env_account =
     load_config cfg env_account
       \<lparr>accounts = [], current_account_index = 0, clients = Map.empty,
        batch_pause = 120, account_limits = load_account_limits today lf\<rparr>"

subsection \<open>Quota operations\<close>

definition get_account_limit :: "string \<Rightarrow> manager \<Rightarrow> string \<Rightarrow> int" where
  "get_account_limit today m phone = get_used (account_limits m) phone today"

text \<open>
  \<open>increment_account_limit\<close> updates the dict in memory and then saves it; the pair is the
  manager and the quota file, \<open>ok\<close> is whether the save succeeds.
\<close>

definition increment_account_limit ::
  "string \<Rightarrow> bool \<Rightarrow> string \<Rightarrow> int \<Rightarrow> manager \<times> limits_file \<Rightarrow> manager \<times> limits_file" where
  "increment_account_limit today ok phone count ml =
     (let m = fst ml;
          lims = account_limits m;
          lims1 = (if lims phone = None then lims(phone \<mapsto> Map.empty) else lims);
          r1 = (case lims1 phone of None \<Rightarrow> Map.empty | Some r \<Rightarrow> r);
          r2 = (if r1 today = None then r1(today \<mapsto> 0) else r1);
          r3 = r2(today \<mapsto> (case r2 today of None \<Rightarrow> 0 | Some c \<Rightarrow> c) + count);
          lims3 = lims1(phone \<mapsto> r3)
      in (m\<lparr>account_limits := lims3\<rparr>, save_account_limits ok lims3 (snd ml)))"

subsection \<open>Rotation\<close>

text \<open>
  The body of the \<open>for offset in range(n)\<close> loop of \<open>get_next_account\<close>, over the offsets
  still to visit. The modulo raises \<open>ZeroDivisionError\<close> when \<open>n = 0\<close>; the index
  \<open>idx\<close> is below \<open>n\<close> otherwise, so \<open>self.accounts[idx]\<close> does not raise.
\<close>

fun scan_accounts ::
  "string \<Rightarrow> int \<Rightarrow> manager \<Rightarrow> nat list \<Rightarrow> py_exn + (account option \<times> manager)" where
  "scan_accounts today batch_size m [] = Inr (None, m)"
| "scan_accounts today batch_size m (offset # rest) =
     (let n = length (accounts m) in
      if n = 0 then Inl ZeroDivisionError
      else
        (let idx = (current_account_index m + offset) mod n;
             acc = accounts m ! idx;
             phone = phone_number acc;
             used = get_used (account_limits m) phone today
         in if used + batch_size \<le> ACCOUNT_DAILY_LIMIT
            then Inr (Some acc, m\<lparr>current_account_index := (idx + 1) mod n\<rparr>)
            else scan_accounts today batch_size m rest))"

definition get_next_account ::
  "string \<Rightarrow> manager \<Rightarrow> int \<Rightarrow> py_exn + (account option \<times> manager)" where
  "get_next_account today m batch_size =
     scan_accounts today batch_size m [0..<length (accounts m)]"

section \<open>Lookup adapter\<close>

text \<open>
  The fields \<open>get_names\<close> copies from the Telethon user object, as the text the CSV writer
  prints for each. \<open>usernames\<close> is a list whose entries are either dicts (with their
  \<open>username\<close>) or other objects.
\<close>

datatype username_entry = DictEntry string | OtherEntry

record profile =
  u_id :: string
  u_username :: string
  u_usernames :: "username_entry list"
  u_first_name :: string
  u_last_name :: string
  u_fake :: string
  u_verified :: string
  u_premium :: string
  u_mutual_contact :: string
  u_bot :: string
  u_bot_chat_history :: string
  u_restricted :: string
  u_restriction_reason :: string
  u_user_was_online :: string
  u_phone :: string

text \<open>
  The four error messages of \<open>get_names\<close> (Russian text in the source) are kept as tags.
  \<open>NoData\<close> is the empty dict, for which \<open>parse_and_save_results\<close> has a branch.
\<close>

datatype lookup_error = NotFound | Ambiguous | TypeErr | Unexpected

datatype user_data = Profile profile | Error lookup_error | NoData

text \<open>
  What a request to Telegram does: it returns, or raises \<open>TypeError\<close>, another
  \<open>Exception\<close>, or an exception outside \<open>Exception\<close>.
\<close>

datatype 'a rpc = Returns 'a | RaisesTypeError | RaisesException | RaisesBase

text \<open>
  A client session: \<open>import_contacts\<close> answers \<open>ImportContactsRequest\<close> with the number of
  users found, \<open>delete_contacts\<close> answers \<open>DeleteContactsRequest\<close> with the user.
\<close>

record client =
  import_contacts :: "string \<Rightarrow> nat rpc"
  delete_contacts :: "string \<Rightarrow> profile rpc"

definition with_plus :: "string \<Rightarrow> string" where
  "with_plus p = (case p of [] \<Rightarrow> CHR ''+'' # p
                  | c # _ \<Rightarrow> if c = CHR ''+'' then p else CHR ''+'' # p)"

text \<open>
  \<open>get_names\<close>: \<open>except TypeError\<close> and \<open>except Exception\<close> turn a failure of either request
  into an error result; anything else propagates (\<open>Inl\<close>). The 3 second settle delay
  before the contact is deleted is part of the lookup.
\<close>

definition get_names :: "client \<Rightarrow> string \<Rightarrow> py_exn + user_data" where
  "get_names cl phone =
     (let phone_number = with_plus phone in
      case import_contacts cl phone_number of
        RaisesTypeError \<Rightarrow> Inr (Error TypeErr)
      | RaisesException \<Rightarrow> Inr (Error Unexpected)
      | RaisesBase \<Rightarrow> Inl BaseExc
      | Returns k \<Rightarrow>
          if k = 0 then Inr (Error NotFound)
          else if k = 1 then
            (case delete_contacts cl phone_number of
               Returns user \<Rightarrow> Inr (Profile user)
             | RaisesTypeError \<Rightarrow> Inr (Error TypeErr)
             | RaisesException \<Rightarrow> Inr (Error Unexpected)
             | RaisesBase \<Rightarrow> Inl BaseExc)
          else Inr (Error Ambiguous))"

section \<open>Processing one batch\<close>

text \<open>
  What the run does that an observer can see, in order: a lookup of a number, the pause
  between two requests, the pause between two batches.
\<close>

datatype event = Lookup string | RequestPause real | BatchPause real

text \<open>
  The characters \<open>\s\<close> matches in a \<open>str\<close> pattern, among the code points below 256:
  tab to carriage return, the separators 28 to 31, space, NEL (133) and the no-break
  space (160). Strings are sequences of code points below 256.
\<close>

definition is_space :: "char \<Rightarrow> bool" where
  "is_space c = ((of_char c :: nat) \<in> {9, 10, 11, 12, 13, 28, 29, 30, 31, 32, 133, 160})"

text \<open>\<open>re.sub(r"\s+", "", phone)\<close>.\<close>

definition clean :: "string \<Rightarrow> string" where
  "clean phone = filter (\<lambda>c. \<not> is_space c) phone"

text \<open>\<open>random.uniform(a, b)\<close> is \<open>a + (b - a) * random()\<close>; \<open>u\<close> is the draw \<open>random()\<close>.\<close>

definition uniform :: "real \<Rightarrow> real \<Rightarrow> real \<Rightarrow> real" where
  "uniform a b u = a + (b - a) * u"

text \<open>
  The loop of \<open>validate_users\<close>. \<open>result\<close> is the dict, in insertion order; \<open>evs\<close> records
  the lookups and pauses done so far; \<open>i\<close> is the counter of \<open>enumerate(phone_numbers, 1)\<close>
  and \<open>n\<close> is \<open>len(phone_numbers)\<close>; \<open>draw i\<close> is the random draw of iteration \<open>i\<close>. An
  exception that leaves \<open>get_names\<close> leaves the function, and the dict with it.
\<close>

fun validate_loop ::
  "client \<Rightarrow> real \<Rightarrow> real \<Rightarrow> (nat \<Rightarrow> real) \<Rightarrow> nat \<Rightarrow> nat \<Rightarrow> string list \<Rightarrow>
   (string \<times> user_data) list \<Rightarrow> event list \<Rightarrow>
   (py_exn \<times> event list) + ((string \<times> user_data) list \<times> event list)" where
  "validate_loop cl pause_min pause_max draw n i [] result evs = Inr (result, evs)"
| "validate_loop cl pause_min pause_max draw n i (phone # rest) result evs =
     (let clean_phone = clean phone in
      if clean_phone \<noteq> [] \<and> clean_phone \<notin> fst ` set result then
        (case get_names cl clean_phone of
           Inl e \<Rightarrow> Inl (e, evs @ [Lookup clean_phone])
         | Inr r \<Rightarrow>
             validate_loop cl pause_min pause_max draw n (Suc i) rest
               (result @ [(clean_phone, r)])
               (if i < n
                then evs @ [Lookup clean_phone, RequestPause (uniform pause_min pause_max (draw i))]
                else evs @ [Lookup clean_phone]))
      else validate_loop cl pause_min pause_max draw n (Suc i) rest result evs)"

definition validate_users ::
  "client \<Rightarrow> string list \<Rightarrow> real \<Rightarrow> real \<Rightarrow> (nat \<Rightarrow> real) \<Rightarrow>
   (py_exn \<times> event list) + ((string \<times> user_data) list \<times> event list)" where
  "validate_users cl phone_numbers pause_min pause_max draw =
     validate_loop cl pause_min pause_max draw (length phone_numbers) 1 phone_numbers [] []"

section \<open>Result output\<close>

text \<open>
  The output file is absent (\<open>None\<close>) or holds a list of CSV rows; it has size 0 exactly
  when it holds no row.
\<close>

type_synonym row = "string list"

definition header :: row where
  "header = [''phone_number'', ''found'', ''id'', ''username'', ''usernames'',
             ''first_name'', ''last_name'', ''fake'', ''verified'', ''premium'',
             ''mutual_contact'', ''bot'', ''bot_chat_history'', ''restricted'',
             ''restriction_reason'', ''user_was_online'', ''phone'', ''error'',
             ''checked_by_account'']"

text \<open>
  \<open>write_header_if_needed\<close>; \<open>ok\<close> is whether opening the file for writing succeeds (the
  \<open>IOError\<close> is caught and logged).
\<close>

definition write_header_if_needed :: "bool \<Rightarrow> row list option \<Rightarrow> row list option" where
  "write_header_if_needed ok f =
     (let file_exists = (f \<noteq> None);
          is_empty = (case f of None \<Rightarrow> True | Some rows \<Rightarrow> rows = [])
      in if \<not> file_exists \<or> is_empty then (if ok then Some [header] else f) else f)"

text \<open>\<open>json.dumps\<close> of a list of user names (which need no escaping).\<close>

fun json_items :: "string list \<Rightarrow> string" where
  "json_items [] = []"
| "json_items [x] = CHR 0x22 # x @ [CHR 0x22]"
| "json_items (x # y # ys) = CHR 0x22 # x @ [CHR 0x22] @ '', '' @ json_items (y # ys)"

definition usernames_str :: "username_entry list \<Rightarrow> string" where
  "usernames_str usernames_list =
     (if usernames_list = [] then []
      else ''['' @ json_items (concat (map (\<lambda>u. case u of DictEntry s \<Rightarrow> [s] | OtherEntry \<Rightarrow> [])
                                           usernames_list)) @ '']'')"

definition error_msg :: "lookup_error \<Rightarrow> string" where
  "error_msg e = (case e of NotFound \<Rightarrow> ''not found'' | Ambiguous \<Rightarrow> ''several accounts''
                  | TypeErr \<Rightarrow> ''TypeError'' | Unexpected \<Rightarrow> ''unexpected error'')"

definition no_row :: "string \<Rightarrow> string \<Rightarrow> string \<Rightarrow> row" where
  "no_row phone msg checked_by =
     [phone, ''No'', [], [], [], [], [], [], [], [], [], [], [], [], [], [], [], msg, checked_by]"

text \<open>The row written for one item of \<open>results_data\<close>.\<close>

definition result_row :: "string \<Rightarrow> string \<times> user_data \<Rightarrow> row" where
  "result_row checked_by item =
     (case item of
        (phone, Profile d) \<Rightarrow>
          [phone, ''Yes'', u_id d, u_username d, usernames_str (u_usernames d),
           u_first_name d, u_last_name d, u_fake d, u_verified d, u_premium d,
           u_mutual_contact d, u_bot d, u_bot_chat_history d, u_restricted d,
           u_restriction_reason d, u_user_was_online d, u_phone d, [], checked_by]
      | (phone, Error e) \<Rightarrow> no_row phone (error_msg e) checked_by
      | (phone, NoData) \<Rightarrow> no_row phone ''No data returned'' checked_by)"

text \<open>
  \<open>parse_and_save_results\<close>: the header if needed, then the file is opened for appending
  (which creates it) and one row per item is written. \<open>hdr_ok\<close> and \<open>app_ok\<close> say whether
  each of the two opens succeeds; a failure is logged and the function returns normally.
\<close>

definition parse_and_save_results ::
  "bool \<Rightarrow> bool \<Rightarrow> (string \<times> user_data) list \<Rightarrow> string \<Rightarrow> row list option \<Rightarrow> row list option" where
  "parse_and_save_results hdr_ok app_ok results_data checked_by f =
     (let f1 = write_header_if_needed hdr_ok f in
      if app_ok
      then Some ((case f1 of None \<Rightarrow> [] | Some rows \<Rightarrow> rows) @ map (result_row checked_by) results_data)
      else f1)"

section \<open>Dispatcher\<close>

text \<open>
  What the surroundings decide during a run: the date, the session of each account and
  whether logging in succeeds, the random draws (by batch and position), and for each
  batch whether the three file writes succeed. The date is taken not to change during
  the run.
\<close>

record io_outcome =
  header_ok :: bool
  append_ok :: bool
  limits_ok :: bool

record env =
  e_today :: string
  e_client :: "string \<Rightarrow> client"
  e_login_ok :: "string \<Rightarrow> bool"
  e_draw :: "nat \<Rightarrow> nat \<Rightarrow> real"
  e_io :: "nat \<Rightarrow> io_outcome"

text \<open>The state a run changes: the manager, the two files, the events, the counter.\<close>

record world =
  mgr :: manager
  out_file :: "row list option"
  quota_file :: limits_file
  trace :: "event list"
  processed_count :: nat

text \<open>
  \<open>get_client\<close>: the cached client if it is connected, a new login otherwise; a failed
  login raises.
\<close>

definition get_client :: "(string \<Rightarrow> bool) \<Rightarrow> manager \<Rightarrow> account \<Rightarrow> py_exn + manager" where
  "get_client login_ok m acc =
     (let phone = phone_number acc in
      if clients m phone = Some True then Inr m
      else if login_ok phone then Inr (m\<lparr>clients := (clients m)(phone \<mapsto> True)\<rparr>)
      else Inl SessionError)"

definition disconnect_all :: "manager \<Rightarrow> manager" where
  "disconnect_all m = m\<lparr>clients := (\<lambda>phone. map_option (\<lambda>_. False) (clients m phone))\<rparr>"

text \<open>
  The pause bounds \<open>main\<close> picks for the selected account: those of the first configured
  account with the same phone number, 120 and 180 by default.
\<close>

definition request_pauses :: "manager \<Rightarrow> account \<Rightarrow> real \<times> real" where
  "request_pauses m account =
     (if accounts m \<noteq> [] then
        (case find (\<lambda>acc. phone_number acc = phone_number account) (accounts m) of
           None \<Rightarrow> (120, 180)
         | Some acc \<Rightarrow>
             ((case request_pause_min acc of None \<Rightarrow> 120 | Some v \<Rightarrow> v),
              (case request_pause_max acc of None \<Rightarrow> 180 | Some v \<Rightarrow> v)))
      else (120, 180))"

text \<open>
  How one iteration of the loop of \<open>main\<close> ends: the loop goes on, it is left by
  \<open>break\<close>, or an exception leaves the \<open>try\<close>.
\<close>

datatype step = Continue world | Break world | Abort py_exn world

text \<open>
  The body of \<open>for i, batch in enumerate(batches, 1)\<close>, with \<open>n = len(batches)\<close>.
\<close>

definition main_body :: "env \<Rightarrow> nat \<Rightarrow> nat \<Rightarrow> string list \<Rightarrow> world \<Rightarrow> step" where
  "main_body ev n i batch w =
     (case get_next_account (e_today ev) (mgr w) (int (length batch)) of
        Inl e \<Rightarrow> Abort e w
      | Inr (None, m1) \<Rightarrow> Break (w\<lparr>mgr := m1\<rparr>)
      | Inr (Some account, m1) \<Rightarrow>
          (case get_client (e_login_ok ev) m1 account of
             Inl e \<Rightarrow> Abort e (w\<lparr>mgr := m1\<rparr>)
           | Inr m2 \<Rightarrow>
               (case validate_users (e_client ev (phone_number account)) batch
                       (fst (request_pauses m2 account)) (snd (request_pauses m2 account))
                       (e_draw ev i) of
                  Inl (e, evs) \<Rightarrow> Abort e (w\<lparr>mgr := m2, trace := trace w @ evs\<rparr>)
                | Inr (result_data, evs) \<Rightarrow>
                    (let w1 = w\<lparr>mgr := m2, trace := trace w @ evs\<rparr>;
                         w2 = (if result_data \<noteq> [] then
                                 (let out = parse_and_save_results (header_ok (e_io ev i))
                                              (append_ok (e_io ev i)) result_data
                                              (phone_number account) (out_file w1);
                                      mq = increment_account_limit (e_today ev)
                                             (limits_ok (e_io ev i)) (phone_number account)
                                             (int (length batch)) (m2, quota_file w1)
                                  in w1\<lparr>mgr := fst mq, out_file := out, quota_file := snd mq,
                                        processed_count := processed_count w1 + length batch\<rparr>)
                               else w1)
                     in Continue (if i < n
                                  then w2\<lparr>trace := trace w2 @ [BatchPause (batch_pause (mgr w2))]\<rparr>
                                  else w2)))))"

text \<open>How the \<open>try\<close> statement of \<open>main\<close> ends.\<close>

datatype run_outcome = Completed | Exhausted | Aborted py_exn

fun main_loop :: "env \<Rightarrow> nat \<Rightarrow> nat \<Rightarrow> string list list \<Rightarrow> world \<Rightarrow> run_outcome \<times> world" where
  "main_loop ev n i [] w = (Completed, w)"
| "main_loop ev n i (batch # rest) w =
     (case main_body ev n i batch w of
        Continue w' \<Rightarrow> main_loop ev n (Suc i) rest w'
      | Break w' \<Rightarrow> (Exhausted, w')
      | Abort e w' \<Rightarrow> (Aborted e, w'))"

text \<open>
  \<open>main\<close> from the list of batches on: nothing happens for an empty list; otherwise the
  loop runs and the \<open>finally\<close> clause disconnects every client.
\<close>

definition main :: "env \<Rightarrow> string list list \<Rightarrow> world \<Rightarrow> run_outcome \<times> world" where
  "main ev batches w =
     (if batches = [] then (Completed, w)
      else (case main_loop ev (length batches) 1 batches w of
              (r, w') \<Rightarrow> (r, w'\<lparr>mgr := disconnect_all (mgr w')\<rparr>)))"

section \<open>Notions used in the statements\<close>

text \<open>
  An account is eligible for a batch when what it used today plus the batch size stays
  within the daily limit.
\<close>

abbreviation (input) eligible :: "string \<Rightarrow> int \<Rightarrow> manager \<Rightarrow> account \<Rightarrow> bool" where
  "eligible today bs m a \<equiv> get_used (account_limits m) (phone_number a) today + bs \<le> ACCOUNT_DAILY_LIMIT"

section \<open>Example inputs: the quota store and the rotator\<close>

text \<open>Three accounts, each with 45 lookups recorded for 3 November 2026.\<close>

definition three_at_45 :: manager where
  "three_at_45 =
     \<lparr>accounts = [\<lparr>phone_number = ''+1000'', request_pause_min = None, request_pause_max = None\<rparr>,
                  \<lparr>phone_number = ''+2000'', request_pause_min = None, request_pause_max = None\<rparr>,
                  \<lparr>phone_number = ''+3000'', request_pause_min = None, request_pause_max = None\<rparr>],
      current_account_index = 0, clients = Map.empty, batch_pause = 120,
      account_limits = [''+1000'' \<mapsto> [''2026-11-03'' \<mapsto> 45],
                        ''+2000'' \<mapsto> [''2026-11-03'' \<mapsto> 45],
                        ''+3000'' \<mapsto> [''2026-11-03'' \<mapsto> 45]]\<rparr>"

text \<open>The manager built from a configuration that has no \<open>accounts\<close> entry.\<close>

definition no_accounts :: manager where
  "no_accounts = new_manager ''2026-11-03'' NoFile (Yaml None NoSettings)
                   \<lparr>phone_number = ''+1000'', request_pause_min = None, request_pause_max = None\<rparr>"

text \<open>A manager with an empty quota dict, and no quota file.\<close>

definition fresh_store :: "manager \<times> limits_file" where
  "fresh_store =
     (\<lparr>accounts = [], current_account_index = 0, clients = Map.empty, batch_pause = 120,
       account_limits = Map.empty\<rparr>, NoFile)"

section \<open>Observations on a run\<close>

text \<open>The numbers looked up, in order, among the events of a run.\<close>

fun lookups_of :: "event list \<Rightarrow> string list" where
  "lookups_of [] = []"
| "lookups_of (Lookup p # evs) = p # lookups_of evs"
| "lookups_of (_ # evs) = lookups_of evs"





text \<open>The rows of the output file, none for an absent file.\<close>

definition content :: "row list option \<Rightarrow> row list" where
  "content f = (case f of None \<Rightarrow> [] | Some rows \<Rightarrow> rows)"

section \<open>Example inputs: runs\<close>

text \<open>A user as \<open>get_names\<close> reports it.\<close>

definition demo_profile :: profile where
  "demo_profile =
     \<lparr>u_id = ''42'', u_username = ''alice'', u_usernames = [], u_first_name = ''Alice'',
      u_last_name = [], u_fake = ''False'', u_verified = ''False'', u_premium = ''False'',
      u_mutual_contact = ''False'', u_bot = ''False'', u_bot_chat_history = ''False'',
      u_restricted = ''False'', u_restriction_reason = ''[]'',
      u_user_was_online = ''Last seen recently'', u_phone = ''1555000111''\<rparr>"

text \<open>
  Three sessions: one that finds a user for every number; one on which the request for
  \<open>+3\<close> raises outside \<open>Exception\<close>; one on which it raises an \<open>Exception\<close>.
\<close>

definition found_client :: client where
  "found_client = \<lparr>import_contacts = (\<lambda>p. Returns 1), delete_contacts = (\<lambda>p. Returns demo_profile)\<rparr>"

definition escaping_client :: client where
  "escaping_client =
     \<lparr>import_contacts = (\<lambda>p. if p = ''+3'' then RaisesBase else Returns 1),
      delete_contacts = (\<lambda>p. Returns demo_profile)\<rparr>"

definition failing_client :: client where
  "failing_client =
     \<lparr>import_contacts = (\<lambda>p. if p = ''+3'' then RaisesException else Returns 1),
      delete_contacts = (\<lambda>p. Returns demo_profile)\<rparr>"

text \<open>
  A run on 3 November 2026 in which every login and every write succeeds and every random
  draw is one half, with a given session; and the state it starts in: one account, no
  output file, no quota recorded.
\<close>

definition demo_env :: "client \<Rightarrow> env" where
  "demo_env cl =
     \<lparr>e_today = ''2026-11-03'', e_client = (\<lambda>phone. cl), e_login_ok = (\<lambda>phone. True),
      e_draw = (\<lambda>i j. 1 / 2),
      e_io = (\<lambda>i. \<lparr>header_ok = True, append_ok = True, limits_ok = True\<rparr>)\<rparr>"

definition demo_world :: world where
  "demo_world =
     \<lparr>mgr = \<lparr>accounts = [\<lparr>phone_number = ''+1000'', request_pause_min = None,
                           request_pause_max = None\<rparr>],
             current_account_index = 0, clients = Map.empty, batch_pause = 120,
             account_limits = Map.empty\<rparr>,
      out_file = None, quota_file = NoFile, trace = [], processed_count = 0\<rparr>"

text \<open>The same run when the output file cannot be opened for writing.\<close>

definition unwritable_env :: env where
  "unwritable_env =
     (demo_env found_client)
       \<lparr>e_io := (\<lambda>i. \<lparr>header_ok = False, append_ok = False, limits_ok = True\<rparr>)\<rparr>"


section \<open>The quota store: increments and the daily reset\<close>

lemma get_used_increment:
  "get_used (account_limits (fst (increment_account_limit today ok phone count ml))) phone today
     = get_used (account_limits (fst ml)) phone today + count"
  by (simp add: increment_account_limit_def get_used_def Let_def split: option.splits)

lemma get_used_increment_other:
  "p \<noteq> phone \<or> d \<noteq> today \<Longrightarrow>
   get_used (account_limits (fst (increment_account_limit today ok phone count ml))) p d
     = get_used (account_limits (fst ml)) p d"
  by (auto simp add: increment_account_limit_def get_used_def Let_def split: option.splits)

text \<open>
  Counts that are not negative stay so: through loading, and through increments by
  amounts that are not negative (\<open>main\<close> increments by the length of a batch).
\<close>

lemma get_used_nonneg_load:
  assumes "\<And>p r d c. data p = Some r \<Longrightarrow> r d = Some c \<Longrightarrow> 0 \<le> c"
  shows "0 \<le> get_used (load_account_limits today (Json data)) phone d'"
proof (cases "data phone")
  case None
  then show ?thesis by (simp add: get_used_def load_account_limits_def)
next
  case (Some r)
  show ?thesis
  proof (cases "r today")
    case None
    with Some show ?thesis by (simp add: get_used_def load_account_limits_def)
  next
    case today: (Some c)
    show ?thesis
    proof (cases "r d'")
      case None
      with Some today show ?thesis by (simp add: get_used_def load_account_limits_def)
    next
      case c': (Some c')
      from assms[OF Some c'] have "0 \<le> c'" .
      with Some today c' show ?thesis by (simp add: get_used_def load_account_limits_def)
    qed
  qed
qed

lemma get_used_nonneg_increment:
  assumes "0 \<le> count" "\<And>p d. 0 \<le> get_used (account_limits (fst ml)) p d"
  shows "0 \<le> get_used (account_limits (fst (increment_account_limit today ok phone count ml))) p' d'"
proof (cases "p' = phone \<and> d' = today")
  case True
  with assms(1) assms(2)[of phone today] show ?thesis by (simp add: get_used_increment)
next
  case False
  then have "p' \<noteq> phone \<or> d' \<noteq> today" by simp
  from get_used_increment_other[OF this] assms(2)[of p' d'] show ?thesis by simp
qed

lemma increment_creates:
  "\<exists>r c. account_limits (fst (increment_account_limit today ok phone count ml)) phone = Some r \<and> r today = Some c"
  by (simp add: increment_account_limit_def Let_def split: option.splits)

lemma get_used_fold_increment:
  "get_used (account_limits (fst (fold (\<lambda>op. increment_account_limit today (fst op) phone (snd op)) ops ml))) phone today
     = get_used (account_limits (fst ml)) phone today + sum_list (map snd ops)"
  by (induction ops arbitrary: ml) (simp_all add: get_used_increment)

section \<open>The rotator\<close>

text \<open>Starting anywhere, \<open>n\<close> consecutive offsets modulo \<open>n\<close> reach every index.\<close>

lemma rotation_cover:
  assumes "0 < n" "j < n"
  shows "\<exists>k<n. (c + k) mod n = (j::nat)"
proof -
  let ?k = "(j + n - c mod n) mod n"
  have lt: "c mod n < n" using assms by simp
  have "(c + ?k) mod n = (c mod n + (j + n - c mod n)) mod n"
    by (simp add: mod_simps)
  also have "c mod n + (j + n - c mod n) = j + n" using lt by simp
  also have "(j + n) mod n = j" using assms by simp
  finally have "(c + ?k) mod n = j" .
  moreover have "?k < n" using assms by simp
  ultimately show ?thesis by blast
qed

lemma scan_accounts_None:
  assumes "accounts m \<noteq> []"
  shows "(\<exists>m'. scan_accounts today bs m offs = Inr (None, m')) \<longleftrightarrow>
         (\<forall>k\<in>set offs. \<not> eligible today bs m (accounts m ! ((current_account_index m + k) mod length (accounts m))))"
  using assms by (induction offs) (auto simp add: Let_def)

lemma scan_accounts_None_state:
  "scan_accounts today bs m offs = Inr (None, m') \<Longrightarrow> m' = m"
  by (induction offs) (auto simp add: Let_def split: if_splits)

lemma scan_accounts_no_raise:
  assumes "accounts m \<noteq> []"
  shows "scan_accounts today bs m offs \<noteq> Inl e"
  using assms by (induction offs) (auto simp add: Let_def)

lemma scan_accounts_Some:
  assumes "accounts m \<noteq> []" "scan_accounts today bs m offs = Inr (Some a, m')"
  shows "\<exists>pre k post. offs = pre @ k # post \<and>
           (\<forall>k'\<in>set pre. \<not> eligible today bs m (accounts m ! ((current_account_index m + k') mod length (accounts m)))) \<and>
           eligible today bs m a \<and>
           a = accounts m ! ((current_account_index m + k) mod length (accounts m)) \<and>
           m' = m\<lparr>current_account_index := ((current_account_index m + k) mod length (accounts m) + 1) mod length (accounts m)\<rparr>"
  using assms
proof (induction offs)
  case Nil
  then show ?case by simp
next
  case (Cons k offs)
  show ?case
  proof (cases "eligible today bs m (accounts m ! ((current_account_index m + k) mod length (accounts m)))")
    case True
    with Cons.prems have "a = accounts m ! ((current_account_index m + k) mod length (accounts m))"
      and "m' = m\<lparr>current_account_index := ((current_account_index m + k) mod length (accounts m) + 1) mod length (accounts m)\<rparr>"
      by (auto simp add: Let_def)
    with True show ?thesis by (intro exI[of _ "[]"] exI[of _ k] exI[of _ offs]) simp
  next
    case False
    with Cons.prems have "scan_accounts today bs m offs = Inr (Some a, m')"
      by (auto simp add: Let_def)
    from Cons.IH[OF Cons.prems(1) this] obtain pre k' post where
      "offs = pre @ k' # post" and rest:
      "(\<forall>k'\<in>set pre. \<not> eligible today bs m (accounts m ! ((current_account_index m + k') mod length (accounts m))))"
      "eligible today bs m a"
      "a = accounts m ! ((current_account_index m + k') mod length (accounts m))"
      "m' = m\<lparr>current_account_index := ((current_account_index m + k') mod length (accounts m) + 1) mod length (accounts m)\<rparr>"
      by blast
    then have "k # offs = (k # pre) @ k' # post" by simp
    moreover from rest False have "(\<forall>j\<in>set (k # pre). \<not> eligible today bs m (accounts m ! ((current_account_index m + j) mod length (accounts m))))"
      by simp
    ultimately show ?thesis using rest by blast
  qed
qed

lemma get_next_account_None:
  "(\<exists>m'. get_next_account today m bs = Inr (None, m')) \<longleftrightarrow>
   (\<forall>a\<in>set (accounts m). \<not> eligible today bs m a)"
proof (cases "accounts m = []")
  case True
  then show ?thesis by (simp add: get_next_account_def)
next
  case False
  let ?n = "length (accounts m)"
  let ?c = "current_account_index m"
  have n: "0 < ?n" using False by simp
  have "(\<forall>k\<in>set [0..<?n]. \<not> eligible today bs m (accounts m ! ((?c + k) mod ?n))) \<longleftrightarrow>
        (\<forall>a\<in>set (accounts m). \<not> eligible today bs m a)" (is "?L \<longleftrightarrow> ?R")
  proof
    assume L: ?L
    show ?R
    proof
      fix a assume "a \<in> set (accounts m)"
      then obtain j where j: "j < ?n" "a = accounts m ! j" by (auto simp add: in_set_conv_nth)
      from rotation_cover[OF n j(1), of ?c] obtain k where "k < ?n" "(?c + k) mod ?n = j" by blast
      with L j show "\<not> eligible today bs m a" by auto
    qed
  next
    assume R: ?R
    show ?L
    proof
      fix k assume "k \<in> set [0..<?n]"
      have "(?c + k) mod ?n < ?n" using n by simp
      then have "accounts m ! ((?c + k) mod ?n) \<in> set (accounts m)" by simp
      with R show "\<not> eligible today bs m (accounts m ! ((?c + k) mod ?n))" by blast
    qed
  qed
  with scan_accounts_None[OF False, of today bs "[0..<?n]"] show ?thesis
    by (simp add: get_next_account_def)
qed

lemma get_next_account_no_raise: "get_next_account today m bs \<noteq> Inl e"
proof (cases "accounts m = []")
  case True
  then show ?thesis by (simp add: get_next_account_def)
next
  case False
  then show ?thesis by (simp add: get_next_account_def scan_accounts_no_raise)
qed

lemma get_next_account_None_state:
  "get_next_account today m bs = Inr (None, m') \<Longrightarrow> m' = m"
  by (simp add: get_next_account_def scan_accounts_None_state)

text \<open>
  C3. \<open>get_next_account\<close> returns \<open>None\<close> exactly when no account is eligible, that is
  when for every account the count used today plus the batch size exceeds the daily limit
  of 50. It never raises, and it leaves the manager as it was when it returns \<open>None\<close>.
  In particular, when the recorded counts are not negative (as they are in a store that
  started empty and grew by batch lengths), a batch size above 50 gets \<open>None\<close>. The scan
  visits as many offsets as there are accounts.
\<close>

theorem get_next_account_exhausted:
  "((\<exists>m'. get_next_account today m bs = Inr (None, m')) \<longleftrightarrow>
      (\<forall>a\<in>set (accounts m).
         ACCOUNT_DAILY_LIMIT < get_used (account_limits m) (phone_number a) today + bs))
   \<and> (\<forall>e. get_next_account today m bs \<noteq> Inl e)
   \<and> (\<forall>m'. get_next_account today m bs = Inr (None, m') \<longrightarrow> m' = m)
   \<and> ((\<forall>a\<in>set (accounts m). 0 \<le> get_used (account_limits m) (phone_number a) today)
        \<and> ACCOUNT_DAILY_LIMIT < bs
      \<longrightarrow> get_next_account today m bs = Inr (None, m))
   \<and> (\<exists>offsets. length offsets = length (accounts m)
        \<and> get_next_account today m bs = scan_accounts today bs m offsets)"
proof (intro conjI allI impI)
  have "length [0..<length (accounts m)] = length (accounts m)" by simp
  then show "\<exists>offsets. length offsets = length (accounts m)
        \<and> get_next_account today m bs = scan_accounts today bs m offsets"
    unfolding get_next_account_def by blast
  show iff: "(\<exists>m'. get_next_account today m bs = Inr (None, m')) \<longleftrightarrow>
      (\<forall>a\<in>set (accounts m).
         ACCOUNT_DAILY_LIMIT < get_used (account_limits m) (phone_number a) today + bs)"
    using get_next_account_None[of today m bs] by (simp add: not_le)
  show "get_next_account today m bs \<noteq> Inl e" for e by (rule get_next_account_no_raise)
  show "m' = m" if "get_next_account today m bs = Inr (None, m')" for m'
    using that by (rule get_next_account_None_state)
  show "get_next_account today m bs = Inr (None, m)"
    if h: "(\<forall>a\<in>set (accounts m). 0 \<le> get_used (account_limits m) (phone_number a) today)
        \<and> ACCOUNT_DAILY_LIMIT < bs"
  proof -
    from h have "\<forall>a\<in>set (accounts m).
         ACCOUNT_DAILY_LIMIT < get_used (account_limits m) (phone_number a) today + bs"
      by fastforce
    with iff obtain m' where m': "get_next_account today m bs = Inr (None, m')" by blast
    then have "m' = m" by (rule get_next_account_None_state)
    with m' show ?thesis by simp
  qed
qed

text \<open>Three accounts at 45 and a batch of 10; the same accounts and a batch of 51.\<close>

theorem get_next_account_exhausted_witness:
  "get_next_account ''2026-11-03'' three_at_45 10 = Inr (None, three_at_45)
   \<and> get_next_account ''2026-11-03'' three_at_45 51 = Inr (None, three_at_45)"
proof -
  have a: "\<forall>a\<in>set (accounts three_at_45).
       ACCOUNT_DAILY_LIMIT < get_used (account_limits three_at_45) (phone_number a) ''2026-11-03'' + 10"
    by (simp add: three_at_45_def get_used_def ACCOUNT_DAILY_LIMIT_def)
  have b: "\<forall>a\<in>set (accounts three_at_45). 0 \<le> get_used (account_limits three_at_45) (phone_number a) ''2026-11-03''"
    by (simp add: three_at_45_def get_used_def)
  have c: "ACCOUNT_DAILY_LIMIT < 51" by (simp add: ACCOUNT_DAILY_LIMIT_def)
  from a get_next_account_exhausted[of "''2026-11-03''" three_at_45 10]
  have d: "get_next_account ''2026-11-03'' three_at_45 10 = Inr (None, three_at_45)" by blast
  from b c get_next_account_exhausted[of "''2026-11-03''" three_at_45 51]
  have e: "get_next_account ''2026-11-03'' three_at_45 51 = Inr (None, three_at_45)" by blast
  from d e show ?thesis by blast
qed

lemma get_next_account_Some:
  assumes "get_next_account today m bs = Inr (Some a, m')"
  shows "\<exists>k<length (accounts m).
           (\<forall>k'<k. \<not> eligible today bs m (accounts m ! ((current_account_index m + k') mod length (accounts m)))) \<and>
           eligible today bs m a \<and>
           a = accounts m ! ((current_account_index m + k) mod length (accounts m)) \<and>
           m' = m\<lparr>current_account_index := ((current_account_index m + k) mod length (accounts m) + 1) mod length (accounts m)\<rparr>"
proof -
  let ?n = "length (accounts m)"
  from assms have ne: "accounts m \<noteq> []" by (auto simp add: get_next_account_def)
  from assms have "scan_accounts today bs m [0..<?n] = Inr (Some a, m')"
    by (simp add: get_next_account_def)
  from scan_accounts_Some[OF ne this] obtain pre k post where
    split: "[0..<?n] = pre @ k # post" and
    pre: "\<forall>k'\<in>set pre. \<not> eligible today bs m (accounts m ! ((current_account_index m + k') mod ?n))" and
    rest: "eligible today bs m a"
      "a = accounts m ! ((current_account_index m + k) mod ?n)"
      "m' = m\<lparr>current_account_index := ((current_account_index m + k) mod ?n + 1) mod ?n\<rparr>"
    by blast
  have len: "length pre = k"
  proof -
    have "[0..<?n] ! length pre = k" using split by simp
    moreover have "length pre < ?n" using arg_cong[OF split, of length] by simp
    ultimately show ?thesis by simp
  qed
  have kn: "k < ?n" using arg_cong[OF split, of length] len by simp
  have "pre = take k [0..<?n]" using split len by simp
  then have "pre = [0..<k]" using kn by (simp add: take_upt)
  with pre have "\<forall>k'<k. \<not> eligible today bs m (accounts m ! ((current_account_index m + k') mod ?n))"
    by simp
  with kn rest show ?thesis by blast
qed

lemma get_next_account_first:
  assumes "current_account_index m < length (accounts m)"
    and "eligible today bs m (accounts m ! current_account_index m)"
  shows "get_next_account today m bs =
           Inr (Some (accounts m ! current_account_index m),
                m\<lparr>current_account_index := (current_account_index m + 1) mod length (accounts m)\<rparr>)"
proof -
  let ?n = "length (accounts m)"
  have ne: "accounts m \<noteq> []" using assms(1) by (cases "accounts m") simp_all
  then have "0 < ?n" by simp
  then have "[0..<?n] = 0 # [Suc 0..<?n]" by (rule upt_conv_Cons)
  moreover note ne
  ultimately show ?thesis using assms by (simp add: get_next_account_def Let_def)
qed

text \<open>
  C4. When \<open>get_next_account\<close> selects an account, that account is the first eligible one
  in the scan that starts at the current rotation index (every candidate before it is over
  the limit), and the rotation index becomes one past its position, modulo the number of
  accounts. So, for three accounts \<open>A\<close>, \<open>B\<close>, \<open>C\<close> that are all eligible and a rotation index
  of 0, four calls in a row with no increment in between select \<open>A\<close>, \<open>B\<close>, \<open>C\<close> and
  \<open>A\<close> again.
\<close>

theorem get_next_account_round_robin:
  "(\<forall>a m'. get_next_account today m bs = Inr (Some a, m') \<longrightarrow>
      (\<exists>k<length (accounts m).
           (\<forall>k'<k. ACCOUNT_DAILY_LIMIT <
               get_used (account_limits m)
                 (phone_number (accounts m ! ((current_account_index m + k') mod length (accounts m)))) today + bs) \<and>
           get_used (account_limits m) (phone_number a) today + bs \<le> ACCOUNT_DAILY_LIMIT \<and>
           a = accounts m ! ((current_account_index m + k) mod length (accounts m)) \<and>
           m' = m\<lparr>current_account_index :=
                    ((current_account_index m + k) mod length (accounts m) + 1) mod length (accounts m)\<rparr>))
   \<and> (accounts m = [A, B, C] \<and> current_account_index m = 0 \<and>
        get_used (account_limits m) (phone_number A) today + bs \<le> ACCOUNT_DAILY_LIMIT \<and>
        get_used (account_limits m) (phone_number B) today + bs \<le> ACCOUNT_DAILY_LIMIT \<and>
        get_used (account_limits m) (phone_number C) today + bs \<le> ACCOUNT_DAILY_LIMIT
      \<longrightarrow> get_next_account today m bs = Inr (Some A, m\<lparr>current_account_index := 1\<rparr>) \<and>
          get_next_account today (m\<lparr>current_account_index := 1\<rparr>) bs
            = Inr (Some B, m\<lparr>current_account_index := 2\<rparr>) \<and>
          get_next_account today (m\<lparr>current_account_index := 2\<rparr>) bs
            = Inr (Some C, m\<lparr>current_account_index := 0\<rparr>) \<and>
          get_next_account today (m\<lparr>current_account_index := 0\<rparr>) bs
            = Inr (Some A, m\<lparr>current_account_index := 1\<rparr>))"
proof (intro conjI allI impI)
  fix a m' assume "get_next_account today m bs = Inr (Some a, m')"
  from get_next_account_Some[OF this]
  show "\<exists>k<length (accounts m).
           (\<forall>k'<k. ACCOUNT_DAILY_LIMIT <
               get_used (account_limits m)
                 (phone_number (accounts m ! ((current_account_index m + k') mod length (accounts m)))) today + bs) \<and>
           get_used (account_limits m) (phone_number a) today + bs \<le> ACCOUNT_DAILY_LIMIT \<and>
           a = accounts m ! ((current_account_index m + k) mod length (accounts m)) \<and>
           m' = m\<lparr>current_account_index :=
                    ((current_account_index m + k) mod length (accounts m) + 1) mod length (accounts m)\<rparr>"
    by (simp add: not_le)
next
  assume h: "accounts m = [A, B, C] \<and> current_account_index m = 0 \<and>
        get_used (account_limits m) (phone_number A) today + bs \<le> ACCOUNT_DAILY_LIMIT \<and>
        get_used (account_limits m) (phone_number B) today + bs \<le> ACCOUNT_DAILY_LIMIT \<and>
        get_used (account_limits m) (phone_number C) today + bs \<le> ACCOUNT_DAILY_LIMIT"
  show "get_next_account today m bs = Inr (Some A, m\<lparr>current_account_index := 1\<rparr>)"
    using h get_next_account_first[of m today bs] by simp
  show "get_next_account today (m\<lparr>current_account_index := 1\<rparr>) bs
            = Inr (Some B, m\<lparr>current_account_index := 2\<rparr>)"
    using h get_next_account_first[of "m\<lparr>current_account_index := 1\<rparr>" today bs] by simp
  show "get_next_account today (m\<lparr>current_account_index := 2\<rparr>) bs
            = Inr (Some C, m\<lparr>current_account_index := 0\<rparr>)"
    using h get_next_account_first[of "m\<lparr>current_account_index := 2\<rparr>" today bs] by simp
  show "get_next_account today (m\<lparr>current_account_index := 0\<rparr>) bs
            = Inr (Some A, m\<lparr>current_account_index := 1\<rparr>)"
    using h get_next_account_first[of "m\<lparr>current_account_index := 0\<rparr>" today bs] by simp
qed

text \<open>Three accounts at 45 and a batch of 5.\<close>

theorem get_next_account_round_robin_witness:
  "get_next_account ''2026-11-03'' three_at_45 5
     = Inr (Some (accounts three_at_45 ! 0), three_at_45\<lparr>current_account_index := 1\<rparr>)
   \<and> get_next_account ''2026-11-03'' (three_at_45\<lparr>current_account_index := 1\<rparr>) 5
     = Inr (Some (accounts three_at_45 ! 1), three_at_45\<lparr>current_account_index := 2\<rparr>)
   \<and> get_next_account ''2026-11-03'' (three_at_45\<lparr>current_account_index := 2\<rparr>) 5
     = Inr (Some (accounts three_at_45 ! 2), three_at_45\<lparr>current_account_index := 0\<rparr>)
   \<and> get_next_account ''2026-11-03'' (three_at_45\<lparr>current_account_index := 0\<rparr>) 5
     = Inr (Some (accounts three_at_45 ! 0), three_at_45\<lparr>current_account_index := 1\<rparr>)"
proof -
  have h: "accounts three_at_45 = [accounts three_at_45 ! 0, accounts three_at_45 ! 1, accounts three_at_45 ! 2]
      \<and> current_account_index three_at_45 = 0
      \<and> get_used (account_limits three_at_45) (phone_number (accounts three_at_45 ! 0)) ''2026-11-03'' + 5 \<le> ACCOUNT_DAILY_LIMIT
      \<and> get_used (account_limits three_at_45) (phone_number (accounts three_at_45 ! 1)) ''2026-11-03'' + 5 \<le> ACCOUNT_DAILY_LIMIT
      \<and> get_used (account_limits three_at_45) (phone_number (accounts three_at_45 ! 2)) ''2026-11-03'' + 5 \<le> ACCOUNT_DAILY_LIMIT"
    by (simp add: three_at_45_def get_used_def ACCOUNT_DAILY_LIMIT_def)
  from get_next_account_round_robin[of "''2026-11-03''" three_at_45 5
         "accounts three_at_45 ! 0" "accounts three_at_45 ! 1" "accounts three_at_45 ! 2"] h
  show ?thesis by blast
qed

lemma account_limits_load_config:
  "account_limits (load_config cfg env_account m) = account_limits m"
  by (simp add: load_config_def load_from_env_def Let_def
           split: config_file.split option.split list.split settings_entry.split)

lemma account_limits_new_manager:
  "account_limits (new_manager today lf cfg env_account) = load_account_limits today lf"
  by (simp add: new_manager_def account_limits_load_config)

text \<open>
  C10. With no account loaded, \<open>get_next_account\<close> returns \<open>None\<close> for every batch size
  and does not raise: the loop over \<open>range(0)\<close> has no iteration, although one iteration
  would raise \<open>ZeroDivisionError\<close>. The account list is empty when the YAML document has
  no \<open>accounts\<close> entry or an empty one (and its \<open>settings\<close> entry can be read).
\<close>

theorem get_next_account_no_accounts:
  "(accounts m = [] \<longrightarrow>
       get_next_account today m bs = Inr (None, m)
       \<and> scan_accounts today bs m (k # rest) = Inl ZeroDivisionError)
   \<and> ((accs = None \<or> accs = Some []) \<and> st \<noteq> BadSettings \<longrightarrow>
        accounts (new_manager today lf (Yaml accs st) env_account) = []
        \<and> get_next_account today (new_manager today lf (Yaml accs st) env_account) bs
            = Inr (None, new_manager today lf (Yaml accs st) env_account))"
proof (intro conjI impI)
  assume "accounts m = []"
  then show "get_next_account today m bs = Inr (None, m)"
    by (simp add: get_next_account_def)
  from \<open>accounts m = []\<close> show "scan_accounts today bs m (k # rest) = Inl ZeroDivisionError"
    by simp
next
  assume h: "(accs = None \<or> accs = Some []) \<and> st \<noteq> BadSettings"
  then show e: "accounts (new_manager today lf (Yaml accs st) env_account) = []"
    by (cases st) (auto simp add: new_manager_def load_config_def)
  then show "get_next_account today (new_manager today lf (Yaml accs st) env_account) bs
            = Inr (None, new_manager today lf (Yaml accs st) env_account)"
    by (simp add: get_next_account_def)
qed

text \<open>A configuration with no \<open>accounts\<close> entry and a batch of 10.\<close>

theorem get_next_account_no_accounts_witness:
  "accounts no_accounts = []
   \<and> get_next_account ''2026-11-03'' no_accounts 10 = Inr (None, no_accounts)
   \<and> scan_accounts ''2026-11-03'' 10 no_accounts [0] = Inl ZeroDivisionError"
proof -
  have st: "(None = None \<or> None = Some ([]::account list)) \<and> NoSettings \<noteq> BadSettings" by simp
  from get_next_account_no_accounts[where m = no_accounts and today = "''2026-11-03''" and bs = 10
         and k = 0 and rest = "[]" and accs = None and st = NoSettings and lf = NoFile
         and env_account = "\<lparr>phone_number = ''+1000'', request_pause_min = None, request_pause_max = None\<rparr>"] st
  show ?thesis unfolding no_accounts_def by blast
qed

text \<open>
  C5. Loading the quota file replaces the record of every account that has no entry for
  today by \<open>{today: 0}\<close> and keeps every record that has one. So \<open>get_account_limit\<close>
  is 0 for an account whose stored record has no entry for today, whatever else the
  record holds, and it is the stored count otherwise. \<open>get_account_limit\<close> is also 0
  when the quota file is absent or cannot be read, for an account with no record, and for
  a record with no entry for the date.
\<close>

theorem daily_reset:
  "(data phone = Some r \<and> r today = None \<longrightarrow>
       load_account_limits today (Json data) phone = Some [today \<mapsto> 0]
       \<and> get_account_limit today (new_manager today (Json data) cfg env_account) phone = 0)
   \<and> (data phone = Some r \<and> r today = Some c \<longrightarrow>
       load_account_limits today (Json data) phone = Some r
       \<and> get_account_limit today (new_manager today (Json data) cfg env_account) phone = c)
   \<and> (lf = NoFile \<or> lf = BadJson \<longrightarrow>
       get_account_limit today (new_manager today lf cfg env_account) phone = 0)
   \<and> (account_limits m phone = None \<longrightarrow> get_account_limit today m phone = 0)
   \<and> (account_limits m phone = Some r' \<and> r' today = None \<longrightarrow> get_account_limit today m phone = 0)"
  by (auto simp add: get_account_limit_def account_limits_new_manager load_account_limits_def
        get_used_def)

text \<open>A file that records 37 lookups for one account on the day before.\<close>

theorem daily_reset_witness:
  "load_account_limits ''2026-11-03'' (Json [''+1000'' \<mapsto> [''2026-11-02'' \<mapsto> 37]]) ''+1000''
     = Some [''2026-11-03'' \<mapsto> 0]
   \<and> get_account_limit ''2026-11-03''
        (new_manager ''2026-11-03'' (Json [''+1000'' \<mapsto> [''2026-11-02'' \<mapsto> 37]]) NoConfig
           \<lparr>phone_number = ''+1000'', request_pause_min = None, request_pause_max = None\<rparr>) ''+1000'' = 0
   \<and> get_account_limit ''2026-11-03''
        (new_manager ''2026-11-03'' (Json [''+1000'' \<mapsto> [''2026-11-02'' \<mapsto> 37]]) NoConfig
           \<lparr>phone_number = ''+1000'', request_pause_min = None, request_pause_max = None\<rparr>) ''+2000'' = 0"
proof -
  let ?data = "[''+1000'' \<mapsto> [''2026-11-02'' \<mapsto> (37::int)]]"
  let ?e = "\<lparr>phone_number = ''+1000'', request_pause_min = None, request_pause_max = None\<rparr>"
  let ?m = "new_manager ''2026-11-03'' (Json ?data) NoConfig ?e"
  have a: "?data ''+1000'' = Some [''2026-11-02'' \<mapsto> 37] \<and> [''2026-11-02'' \<mapsto> (37::int)] ''2026-11-03'' = None"
    by simp
  have b: "account_limits ?m ''+2000'' = None"
    by (simp add: new_manager_def load_config_def load_from_env_def load_account_limits_def)
  from daily_reset[where data = ?data and phone = "''+1000''" and r = "[''2026-11-02'' \<mapsto> 37]"
         and today = "''2026-11-03''" and cfg = NoConfig and env_account = ?e] a
  have "load_account_limits ''2026-11-03'' (Json ?data) ''+1000'' = Some [''2026-11-03'' \<mapsto> 0]
        \<and> get_account_limit ''2026-11-03'' ?m ''+1000'' = 0" by blast
  moreover from daily_reset[where phone = "''+2000''" and today = "''2026-11-03''" and m = ?m] b
  have "get_account_limit ''2026-11-03'' ?m ''+2000'' = 0" by blast
  ultimately show ?thesis by blast
qed

lemma increment_from_absent:
  assumes "account_limits (fst ml) phone = None \<or>
           (\<exists>r. account_limits (fst ml) phone = Some r \<and> r today = None)"
  shows "\<exists>r. account_limits (fst (increment_account_limit today ok phone d ml)) phone = Some r
             \<and> r today = Some (0 + d)"
  using assms by (auto simp add: increment_account_limit_def Let_def)

text \<open>
  C6. After a sequence of calls of \<open>increment_account_limit\<close> for one account on one
  date, with deltas \<open>d1 .. dk\<close>, \<open>get_account_limit\<close> is its value before the sequence
  plus \<open>d1 + ... + dk\<close>, whether or not each save of the quota file succeeds. When the
  entry for the account and date is absent, one increment creates it at 0 and adds the
  delta, and the value after the sequence is the sum of the deltas.
\<close>

theorem quota_monotonic:
  "get_account_limit today
     (fst (fold (\<lambda>op. increment_account_limit today (fst op) phone (snd op)) ops ml)) phone
     = get_account_limit today (fst ml) phone + sum_list (map snd ops)
   \<and> (account_limits (fst ml) phone = None \<or>
        (\<exists>r. account_limits (fst ml) phone = Some r \<and> r today = None) \<longrightarrow>
        (\<exists>r. account_limits (fst (increment_account_limit today ok phone d ml)) phone = Some r
              \<and> r today = Some (0 + d))
        \<and> get_account_limit today
            (fst (fold (\<lambda>op. increment_account_limit today (fst op) phone (snd op)) ops ml)) phone
            = sum_list (map snd ops))"
proof (intro conjI impI)
  show sum: "get_account_limit today
     (fst (fold (\<lambda>op. increment_account_limit today (fst op) phone (snd op)) ops ml)) phone
     = get_account_limit today (fst ml) phone + sum_list (map snd ops)"
    by (simp add: get_account_limit_def get_used_fold_increment)
  assume absent: "account_limits (fst ml) phone = None \<or>
        (\<exists>r. account_limits (fst ml) phone = Some r \<and> r today = None)"
  then show "\<exists>r. account_limits (fst (increment_account_limit today ok phone d ml)) phone = Some r
              \<and> r today = Some (0 + d)"
    by (rule increment_from_absent)
  from absent have "get_account_limit today (fst ml) phone = 0"
    by (auto simp add: get_account_limit_def get_used_def)
  with sum show "get_account_limit today
            (fst (fold (\<lambda>op. increment_account_limit today (fst op) phone (snd op)) ops ml)) phone
            = sum_list (map snd ops)"
    by simp
qed

text \<open>Three increments, of 3, 4 and 5, on an empty store; the second save fails.\<close>

theorem quota_monotonic_witness:
  "get_account_limit ''2026-11-03''
     (fst (fold (\<lambda>op. increment_account_limit ''2026-11-03'' (fst op) ''+1000'' (snd op))
             [(True, 3), (False, 4), (True, 5)] fresh_store)) ''+1000'' = 12"
proof -
  have "account_limits (fst fresh_store) ''+1000'' = None \<or>
        (\<exists>r. account_limits (fst fresh_store) ''+1000'' = Some r \<and> r ''2026-11-03'' = None)"
    by (simp add: fresh_store_def)
  with quota_monotonic[where today = "''2026-11-03''" and phone = "''+1000''" and ml = fresh_store
         and ops = "[(True, 3), (False, 4), (True, 5)]" and ok = True and d = 3]
  have "get_account_limit ''2026-11-03''
     (fst (fold (\<lambda>op. increment_account_limit ''2026-11-03'' (fst op) ''+1000'' (snd op))
             [(True, 3), (False, 4), (True, 5)] fresh_store)) ''+1000''
        = sum_list (map snd [(True, 3), (False, 4), (True, 5::int)])" by blast
  then show ?thesis by simp
qed

section \<open>One batch: de-duplication and pacing\<close>












section \<open>The dispatcher loop\<close>

lemma scan_accounts_index_only:
  "scan_accounts today bs m offs = Inr (x, m') \<Longrightarrow> \<exists>k. m' = m\<lparr>current_account_index := k\<rparr>"
proof (induction offs)
  case Nil
  then have "m' = m\<lparr>current_account_index := current_account_index m\<rparr>" by simp
  then show ?case by blast
next
  case (Cons k offs)
  then show ?case by (auto simp add: Let_def split: if_splits)
qed

lemma get_next_account_index_only:
  "get_next_account today m bs = Inr (x, m') \<Longrightarrow> \<exists>k. m' = m\<lparr>current_account_index := k\<rparr>"
  unfolding get_next_account_def by (rule scan_accounts_index_only)

lemma get_client_clients_only:
  "get_client login_ok m acc = Inr m' \<Longrightarrow> \<exists>c. m' = m\<lparr>clients := c\<rparr>"
proof -
  assume h: "get_client login_ok m acc = Inr m'"
  show ?thesis
  proof (cases "clients m (phone_number acc) = Some True")
    case True
    with h have "m' = m\<lparr>clients := clients m\<rparr>" by (simp add: get_client_def)
    then show ?thesis by blast
  next
    case False
    with h show ?thesis by (auto simp add: get_client_def Let_def split: if_splits)
  qed
qed

lemma increment_limits_only:
  "\<exists>l. fst (increment_account_limit today ok phone d ml) = (fst ml)\<lparr>account_limits := l\<rparr>"
  unfolding increment_account_limit_def Let_def fst_conv by blast

lemma main_body_success:
  assumes "get_next_account (e_today ev) (mgr w) (int (length batch)) = Inr (Some account, m1)"
    and "get_client (e_login_ok ev) m1 account = Inr m2"
    and "validate_users (e_client ev (phone_number account)) batch
           (fst (request_pauses m2 account)) (snd (request_pauses m2 account)) (e_draw ev i)
         = Inr (result_data, evs)"
  shows "main_body ev n i batch w =
     Continue
       (let w1 = w\<lparr>mgr := m2, trace := trace w @ evs\<rparr>;
            w2 = (if result_data \<noteq> [] then
                    (let out = parse_and_save_results (header_ok (e_io ev i))
                                 (append_ok (e_io ev i)) result_data
                                 (phone_number account) (out_file w1);
                         mq = increment_account_limit (e_today ev)
                                (limits_ok (e_io ev i)) (phone_number account)
                                (int (length batch)) (m2, quota_file w1)
                     in w1\<lparr>mgr := fst mq, out_file := out, quota_file := snd mq,
                           processed_count := processed_count w1 + length batch\<rparr>)
                  else w1)
        in (if i < n
            then w2\<lparr>trace := trace w2 @ [BatchPause (batch_pause (mgr w2))]\<rparr>
            else w2))"
  using assms by (simp add: main_body_def Let_def)

lemma main_body_escape:
  assumes "get_next_account (e_today ev) (mgr w) (int (length batch)) = Inr (Some account, m1)"
    and "get_client (e_login_ok ev) m1 account = Inr m2"
    and "validate_users (e_client ev (phone_number account)) batch
           (fst (request_pauses m2 account)) (snd (request_pauses m2 account)) (e_draw ev i)
         = Inl (e, evs)"
  shows "main_body ev n i batch w = Abort e (w\<lparr>mgr := m2, trace := trace w @ evs\<rparr>)"
  using assms by (simp add: main_body_def)

lemma main_body_cases:
  "(\<exists>e. get_next_account (e_today ev) (mgr w) (int (length batch)) = Inl e
        \<and> main_body ev n i batch w = Abort e w)
   \<or> (\<exists>m1. get_next_account (e_today ev) (mgr w) (int (length batch)) = Inr (None, m1)
        \<and> main_body ev n i batch w = Break (w\<lparr>mgr := m1\<rparr>))
   \<or> (\<exists>account m1 e. get_next_account (e_today ev) (mgr w) (int (length batch)) = Inr (Some account, m1)
        \<and> get_client (e_login_ok ev) m1 account = Inl e
        \<and> main_body ev n i batch w = Abort e (w\<lparr>mgr := m1\<rparr>))
   \<or> (\<exists>account m1 m2 e evs.
          get_next_account (e_today ev) (mgr w) (int (length batch)) = Inr (Some account, m1)
        \<and> get_client (e_login_ok ev) m1 account = Inr m2
        \<and> validate_users (e_client ev (phone_number account)) batch
             (fst (request_pauses m2 account)) (snd (request_pauses m2 account)) (e_draw ev i)
           = Inl (e, evs))
   \<or> (\<exists>account m1 m2 result_data evs.
          get_next_account (e_today ev) (mgr w) (int (length batch)) = Inr (Some account, m1)
        \<and> get_client (e_login_ok ev) m1 account = Inr m2
        \<and> validate_users (e_client ev (phone_number account)) batch
             (fst (request_pauses m2 account)) (snd (request_pauses m2 account)) (e_draw ev i)
           = Inr (result_data, evs))"
proof (cases "get_next_account (e_today ev) (mgr w) (int (length batch))")
  case (Inl e)
  then show ?thesis by (simp add: main_body_def)
next
  case (Inr am)
  obtain a m1 where am: "am = (a, m1)" by (cases am)
  show ?thesis
  proof (cases a)
    case None
    with Inr am show ?thesis by (simp add: main_body_def)
  next
    case (Some account)
    show ?thesis
    proof (cases "get_client (e_login_ok ev) m1 account")
      case (Inl e)
      with Inr am Some show ?thesis by (simp add: main_body_def)
    next
      case m2: (Inr m2)
      show ?thesis
      proof (cases "validate_users (e_client ev (phone_number account)) batch
             (fst (request_pauses m2 account)) (snd (request_pauses m2 account)) (e_draw ev i)")
        case (Inl x)
        obtain e evs where "x = (e, evs)" by (cases x)
        with Inl Inr am Some m2 show ?thesis by simp
      next
        case r: (Inr x)
        obtain result_data evs where "x = (result_data, evs)" by (cases x)
        with r Inr am Some m2 show ?thesis by simp
      qed
    qed
  qed
qed

lemma main_body_success_fields:
  assumes sel: "get_next_account (e_today ev) (mgr w) (int (length batch)) = Inr (Some account, m1)"
    and cli: "get_client (e_login_ok ev) m1 account = Inr m2"
    and val: "validate_users (e_client ev (phone_number account)) batch
           (fst (request_pauses m2 account)) (snd (request_pauses m2 account)) (e_draw ev i)
         = Inr (result_data, evs)"
  shows "\<exists>w'. main_body ev n i batch w = Continue w' \<and>
     trace w' = trace w @ evs @ (if i < n then [BatchPause (batch_pause (mgr w))] else []) \<and>
     out_file w' = (if result_data \<noteq> []
                    then parse_and_save_results (header_ok (e_io ev i)) (append_ok (e_io ev i))
                           result_data (phone_number account) (out_file w)
                    else out_file w) \<and>
     get_account_limit (e_today ev) (mgr w') (phone_number account)
       = get_account_limit (e_today ev) (mgr w) (phone_number account)
           + (if result_data \<noteq> [] then int (length batch) else 0) \<and>
     processed_count w' = processed_count w + (if result_data \<noteq> [] then length batch else 0) \<and>
     batch_pause (mgr w') = batch_pause (mgr w) \<and>
     accounts (mgr w') = accounts (mgr w)"
proof -
  from get_next_account_index_only[OF sel] obtain k where m1: "m1 = (mgr w)\<lparr>current_account_index := k\<rparr>"
    by blast
  from get_client_clients_only[OF cli] obtain c where m2: "m2 = m1\<lparr>clients := c\<rparr>" by blast
  let ?mq = "increment_account_limit (e_today ev) (limits_ok (e_io ev i)) (phone_number account)
               (int (length batch)) (m2, quota_file w)"
  from increment_limits_only[of "e_today ev" "limits_ok (e_io ev i)" "phone_number account"
         "int (length batch)" "(m2, quota_file w)"]
  obtain l where mq: "fst ?mq = m2\<lparr>account_limits := l\<rparr>" by auto
  have bp2: "batch_pause m2 = batch_pause (mgr w)" by (simp add: m1 m2)
  have ac2: "accounts m2 = accounts (mgr w)" by (simp add: m1 m2)
  have al2: "account_limits m2 = account_limits (mgr w)" by (simp add: m1 m2)
  have used: "get_used (account_limits (fst ?mq)) (phone_number account) (e_today ev)
              = get_used (account_limits (mgr w)) (phone_number account) (e_today ev)
                  + int (length batch)"
    using get_used_increment[of "e_today ev" "limits_ok (e_io ev i)" "phone_number account"
            "int (length batch)" "(m2, quota_file w)"] al2
    by simp
  have bp: "batch_pause (fst ?mq) = batch_pause (mgr w)" unfolding mq by (simp add: bp2)
  have ac: "accounts (fst ?mq) = accounts (mgr w)" unfolding mq by (simp add: ac2)
  show ?thesis
    unfolding main_body_success[OF sel cli val]
    by (simp add: Let_def get_account_limit_def used bp ac bp2 ac2 al2)
qed

lemma main_body_escape_fields:
  assumes sel: "get_next_account (e_today ev) (mgr w) (int (length batch)) = Inr (Some account, m1)"
    and cli: "get_client (e_login_ok ev) m1 account = Inr m2"
    and val: "validate_users (e_client ev (phone_number account)) batch
           (fst (request_pauses m2 account)) (snd (request_pauses m2 account)) (e_draw ev i)
         = Inl (e, evs)"
  shows "\<exists>w'. main_body ev n i batch w = Abort e w' \<and>
     trace w' = trace w @ evs \<and> out_file w' = out_file w \<and> quota_file w' = quota_file w \<and>
     account_limits (mgr w') = account_limits (mgr w) \<and>
     processed_count w' = processed_count w"
proof -
  from get_next_account_index_only[OF sel] obtain k where m1: "m1 = (mgr w)\<lparr>current_account_index := k\<rparr>"
    by blast
  from get_client_clients_only[OF cli] obtain c where m2: "m2 = m1\<lparr>clients := c\<rparr>" by blast
  show ?thesis unfolding main_body_escape[OF sel cli val] by (simp add: m1 m2)
qed

section \<open>The output file\<close>












section \<open>Pauses between batches\<close>



lemma main_body_Abort:
  assumes "main_body ev n i batch w = Abort e w'"
  shows "out_file w' = out_file w \<and> quota_file w' = quota_file w \<and>
         account_limits (mgr w') = account_limits (mgr w) \<and>
         processed_count w' = processed_count w"
proof -
  from main_body_cases[of ev w batch n i]
  consider (a) "\<exists>x. main_body ev n i batch w = Abort x w"
    | (b) "\<exists>m1. main_body ev n i batch w = Break (w\<lparr>mgr := m1\<rparr>)"
    | (c) "\<exists>account m1 x. get_next_account (e_today ev) (mgr w) (int (length batch)) = Inr (Some account, m1)
          \<and> main_body ev n i batch w = Abort x (w\<lparr>mgr := m1\<rparr>)"
    | (d) "\<exists>account m1 m2 x evs.
          get_next_account (e_today ev) (mgr w) (int (length batch)) = Inr (Some account, m1)
        \<and> get_client (e_login_ok ev) m1 account = Inr m2
        \<and> validate_users (e_client ev (phone_number account)) batch
             (fst (request_pauses m2 account)) (snd (request_pauses m2 account)) (e_draw ev i)
           = Inl (x, evs)"
    | (f) "\<exists>account m1 m2 result_data evs.
          get_next_account (e_today ev) (mgr w) (int (length batch)) = Inr (Some account, m1)
        \<and> get_client (e_login_ok ev) m1 account = Inr m2
        \<and> validate_users (e_client ev (phone_number account)) batch
             (fst (request_pauses m2 account)) (snd (request_pauses m2 account)) (e_draw ev i)
           = Inr (result_data, evs)"
    by blast
  then show ?thesis
  proof cases
    case a with assms show ?thesis by auto
  next
    case b with assms show ?thesis by auto
  next
    case c
    then obtain account m1 x where
      sel: "get_next_account (e_today ev) (mgr w) (int (length batch)) = Inr (Some account, m1)"
      and ab: "main_body ev n i batch w = Abort x (w\<lparr>mgr := m1\<rparr>)" by blast
    from get_next_account_index_only[OF sel] obtain k where
      "m1 = (mgr w)\<lparr>current_account_index := k\<rparr>" by blast
    with ab assms show ?thesis by auto
  next
    case d
    then obtain account m1 m2 x evs where
      "get_next_account (e_today ev) (mgr w) (int (length batch)) = Inr (Some account, m1)"
      "get_client (e_login_ok ev) m1 account = Inr m2"
      "validate_users (e_client ev (phone_number account)) batch
             (fst (request_pauses m2 account)) (snd (request_pauses m2 account)) (e_draw ev i)
           = Inl (x, evs)" by blast
    from main_body_escape_fields[OF this, of n] assms show ?thesis by auto
  next
    case f
    then obtain account m1 m2 result_data evs where
      "get_next_account (e_today ev) (mgr w) (int (length batch)) = Inr (Some account, m1)"
      "get_client (e_login_ok ev) m1 account = Inr m2"
      "validate_users (e_client ev (phone_number account)) batch
             (fst (request_pauses m2 account)) (snd (request_pauses m2 account)) (e_draw ev i)
           = Inr (result_data, evs)" by blast
    from main_body_success_fields[OF this, of n] assms show ?thesis by auto
  qed
qed




section \<open>Persistence and the quota\<close>

text \<open>
  C1, as the code has it. For a batch whose lookups return (\<open>validate_users\<close> gives a
  result set), the loop body calls \<open>parse_and_save_results\<close> and then increments the
  account's counter by the length of the batch exactly when the result set is not empty;
  whether the rows were written plays no part. When neither the header nor the rows can be
  written, the output file stays as it was and the counter is incremented all the same.
\<close>

theorem quota_incremented_after_persist_attempt:
  "(get_next_account (e_today ev) (mgr w) (int (length batch)) = Inr (Some account, m1)
    \<and> get_client (e_login_ok ev) m1 account = Inr m2
    \<and> validate_users (e_client ev (phone_number account)) batch
         (fst (request_pauses m2 account)) (snd (request_pauses m2 account)) (e_draw ev i)
       = Inr (result_data, evs)
    \<longrightarrow> (\<exists>w'. main_body ev n i batch w = Continue w'
          \<and> out_file w' = (if result_data \<noteq> []
                            then parse_and_save_results (header_ok (e_io ev i))
                                   (append_ok (e_io ev i)) result_data (phone_number account)
                                   (out_file w)
                            else out_file w)
          \<and> get_account_limit (e_today ev) (mgr w') (phone_number account)
              = get_account_limit (e_today ev) (mgr w) (phone_number account)
                  + (if result_data \<noteq> [] then int (length batch) else 0)))
   \<and> parse_and_save_results False False results_data checked_by f = f"
proof (intro conjI impI)
  assume h: "get_next_account (e_today ev) (mgr w) (int (length batch)) = Inr (Some account, m1)
    \<and> get_client (e_login_ok ev) m1 account = Inr m2
    \<and> validate_users (e_client ev (phone_number account)) batch
         (fst (request_pauses m2 account)) (snd (request_pauses m2 account)) (e_draw ev i)
       = Inr (result_data, evs)"
  then have sel: "get_next_account (e_today ev) (mgr w) (int (length batch)) = Inr (Some account, m1)"
    and cli: "get_client (e_login_ok ev) m1 account = Inr m2"
    and val: "validate_users (e_client ev (phone_number account)) batch
         (fst (request_pauses m2 account)) (snd (request_pauses m2 account)) (e_draw ev i)
       = Inr (result_data, evs)" by blast+
  from main_body_success_fields[OF sel cli val, of n]
  show "\<exists>w'. main_body ev n i batch w = Continue w'
          \<and> out_file w' = (if result_data \<noteq> []
                            then parse_and_save_results (header_ok (e_io ev i))
                                   (append_ok (e_io ev i)) result_data (phone_number account)
                                   (out_file w)
                            else out_file w)
          \<and> get_account_limit (e_today ev) (mgr w') (phone_number account)
              = get_account_limit (e_today ev) (mgr w) (phone_number account)
                  + (if result_data \<noteq> [] then int (length batch) else 0)"
    by blast
next
  show "parse_and_save_results False False results_data checked_by f = f"
    by (cases f) (simp_all add: parse_and_save_results_def write_header_if_needed_def)
qed

text \<open>
  One batch of one number, all writes to the output file failing: the run completes, the
  file is still absent, and the counter of the account is 1.
\<close>

theorem quota_incremented_without_persistence:
  "fst (main unwritable_env [[''+1555000111'']] demo_world) = Completed
   \<and> out_file (snd (main unwritable_env [[''+1555000111'']] demo_world)) = None
   \<and> get_account_limit ''2026-11-03''
        (mgr (snd (main unwritable_env [[''+1555000111'']] demo_world))) ''+1000'' = 1"
  by code_simp

text \<open>The same batch and failure, through the theorem.\<close>

theorem quota_incremented_after_persist_attempt_witness:
  "main_body unwritable_env 1 1 [''+1555000111''] demo_world
     = Continue (snd (main_loop unwritable_env 1 1 [[''+1555000111'']] demo_world))
   \<and> out_file (snd (main_loop unwritable_env 1 1 [[''+1555000111'']] demo_world))
       = out_file demo_world
   \<and> get_account_limit ''2026-11-03''
        (mgr (snd (main_loop unwritable_env 1 1 [[''+1555000111'']] demo_world))) ''+1000''
       = get_account_limit ''2026-11-03'' (mgr demo_world) ''+1000'' + 1"
proof -
  let ?acc = "\<lparr>phone_number = ''+1000'', request_pause_min = None, request_pause_max = None\<rparr>"
  let ?m1 = "(mgr demo_world)\<lparr>current_account_index := 0\<rparr>"
  let ?m2 = "?m1\<lparr>clients := [''+1000'' \<mapsto> True]\<rparr>"
  let ?rd = "[(''+1555000111'', Profile demo_profile)]"
  have sel: "get_next_account (e_today unwritable_env) (mgr demo_world)
               (int (length [''+1555000111''])) = Inr (Some ?acc, ?m1)"
    by (simp add: get_next_account_def unwritable_env_def demo_env_def demo_world_def
          get_used_def ACCOUNT_DAILY_LIMIT_def)
  have cli: "get_client (e_login_ok unwritable_env) ?m1 ?acc = Inr ?m2"
    by (simp add: get_client_def unwritable_env_def demo_env_def demo_world_def)
  have val: "validate_users (e_client unwritable_env (phone_number ?acc)) [''+1555000111'']
               (fst (request_pauses ?m2 ?acc)) (snd (request_pauses ?m2 ?acc))
               (e_draw unwritable_env 1)
             = Inr (?rd, [Lookup ''+1555000111''])"
    by code_simp
  from quota_incremented_after_persist_attempt[where ev = unwritable_env and w = demo_world
         and batch = "[''+1555000111'']" and account = ?acc and ?m1.0 = ?m1 and ?m2.0 = ?m2
         and i = 1 and n = 1 and result_data = ?rd and evs = "[Lookup ''+1555000111'']"
         and results_data = ?rd and checked_by = "''+1000''" and f = "out_file demo_world"]
       sel cli val
  obtain w' where b: "main_body unwritable_env 1 1 [''+1555000111''] demo_world = Continue w'"
    and o: "out_file w' = parse_and_save_results (header_ok (e_io unwritable_env 1))
                            (append_ok (e_io unwritable_env 1)) ?rd ''+1000'' (out_file demo_world)"
    and q: "get_account_limit (e_today unwritable_env) (mgr w') ''+1000''
              = get_account_limit (e_today unwritable_env) (mgr demo_world) ''+1000'' + 1"
    and z: "parse_and_save_results False False ?rd ''+1000'' (out_file demo_world)
              = out_file demo_world"
    by auto
  from b have l: "snd (main_loop unwritable_env 1 1 [[''+1555000111'']] demo_world) = w'"
    by simp
  from o z have o': "out_file w' = out_file demo_world"
    by (simp add: unwritable_env_def)
  from q have q': "get_account_limit ''2026-11-03'' (mgr w') ''+1000''
              = get_account_limit ''2026-11-03'' (mgr demo_world) ''+1000'' + 1"
    by (simp add: unwritable_env_def demo_env_def)
  from b l o' q' show ?thesis by simp
qed

section \<open>An exception that leaves the batch\<close>

text \<open>
  C2, as the code has it. When an exception leaves \<open>validate_users\<close> partway through a
  batch, the dict of results built so far is lost with it: the loop body ends in that
  exception with the output file, the quota file, the counters in memory and the count of
  processed numbers all as they were before the batch, so nothing of the batch is written
  and the quota is incremented by 0. This holds for every exception that leaves the loop
  body, and the loop stops there: no later batch is processed. An \<open>Exception\<close> raised by
  a request inside one lookup does not leave \<open>get_names\<close>: it becomes an error result.
\<close>

theorem escaping_exception_discards_batch:
  "(get_next_account (e_today ev) (mgr w) (int (length batch)) = Inr (Some account, m1)
    \<and> get_client (e_login_ok ev) m1 account = Inr m2
    \<and> validate_users (e_client ev (phone_number account)) batch
         (fst (request_pauses m2 account)) (snd (request_pauses m2 account)) (e_draw ev i)
       = Inl (e, evs)
    \<longrightarrow> (\<exists>w'. main_body ev n i batch w = Abort e w' \<and> trace w' = trace w @ evs))
   \<and> (main_body ev n i batch w = Abort e w'
      \<longrightarrow> out_file w' = out_file w \<and> quota_file w' = quota_file w
          \<and> account_limits (mgr w') = account_limits (mgr w)
          \<and> get_account_limit (e_today ev) (mgr w') phone
              = get_account_limit (e_today ev) (mgr w) phone
          \<and> processed_count w' = processed_count w
          \<and> main_loop ev n i (batch # rest) w = (Aborted e, w'))
   \<and> (import_contacts cl (with_plus p) = RaisesException \<or>
       import_contacts cl (with_plus p) = RaisesTypeError
      \<longrightarrow> (\<exists>err. get_names cl p = Inr (Error err)))"
proof (intro conjI impI)
  assume h: "get_next_account (e_today ev) (mgr w) (int (length batch)) = Inr (Some account, m1)
    \<and> get_client (e_login_ok ev) m1 account = Inr m2
    \<and> validate_users (e_client ev (phone_number account)) batch
         (fst (request_pauses m2 account)) (snd (request_pauses m2 account)) (e_draw ev i)
       = Inl (e, evs)"
  then have sel: "get_next_account (e_today ev) (mgr w) (int (length batch)) = Inr (Some account, m1)"
    and cli: "get_client (e_login_ok ev) m1 account = Inr m2"
    and val: "validate_users (e_client ev (phone_number account)) batch
         (fst (request_pauses m2 account)) (snd (request_pauses m2 account)) (e_draw ev i)
       = Inl (e, evs)" by blast+
  from main_body_escape_fields[OF sel cli val, of n]
  show "\<exists>w'. main_body ev n i batch w = Abort e w' \<and> trace w' = trace w @ evs" by blast
next
  assume ab: "main_body ev n i batch w = Abort e w'"
  from main_body_Abort[OF ab]
  have f: "out_file w' = out_file w" "quota_file w' = quota_file w"
      "account_limits (mgr w') = account_limits (mgr w)"
      "processed_count w' = processed_count w" by blast+
  from f show "out_file w' = out_file w" "quota_file w' = quota_file w"
      "account_limits (mgr w') = account_limits (mgr w)"
      "processed_count w' = processed_count w" by blast+
  from f(3) show "get_account_limit (e_today ev) (mgr w') phone
              = get_account_limit (e_today ev) (mgr w) phone"
    by (simp add: get_account_limit_def)
  from ab show "main_loop ev n i (batch # rest) w = (Aborted e, w')" by simp
next
  assume "import_contacts cl (with_plus p) = RaisesException \<or>
       import_contacts cl (with_plus p) = RaisesTypeError"
  then show "\<exists>err. get_names cl p = Inr (Error err)"
    by (auto simp add: get_names_def Let_def)
qed

text \<open>
  A batch of five numbers. When the request for the third one raises outside
  \<open>Exception\<close>, three lookups have been made, the run is aborted, no file is written and
  the counter is 0. When it raises an \<open>Exception\<close>, the run completes, the header and
  five rows are written and the counter is 5. In neither case is it 2.
\<close>

theorem partial_batch_not_flushed:
  "fst (main (demo_env escaping_client) [[''+1'', ''+2'', ''+3'', ''+4'', ''+5'']] demo_world)
     = Aborted BaseExc
   \<and> lookups_of (trace (snd (main (demo_env escaping_client)
                                 [[''+1'', ''+2'', ''+3'', ''+4'', ''+5'']] demo_world)))
     = [''+1'', ''+2'', ''+3'']
   \<and> out_file (snd (main (demo_env escaping_client)
                        [[''+1'', ''+2'', ''+3'', ''+4'', ''+5'']] demo_world)) = None
   \<and> get_account_limit ''2026-11-03''
        (mgr (snd (main (demo_env escaping_client)
                     [[''+1'', ''+2'', ''+3'', ''+4'', ''+5'']] demo_world))) ''+1000'' = 0
   \<and> fst (main (demo_env failing_client) [[''+1'', ''+2'', ''+3'', ''+4'', ''+5'']] demo_world)
     = Completed
   \<and> length (content (out_file (snd (main (demo_env failing_client)
                        [[''+1'', ''+2'', ''+3'', ''+4'', ''+5'']] demo_world)))) = 6
   \<and> get_account_limit ''2026-11-03''
        (mgr (snd (main (demo_env failing_client)
                     [[''+1'', ''+2'', ''+3'', ''+4'', ''+5'']] demo_world))) ''+1000'' = 5"
  by code_simp

text \<open>The five numbers with the escaping exception, through the theorem.\<close>

theorem escaping_exception_discards_batch_witness:
  "main_loop (demo_env escaping_client) 1 1 [[''+1'', ''+2'', ''+3'', ''+4'', ''+5'']] demo_world
     = (Aborted BaseExc,
        snd (main_loop (demo_env escaping_client) 1 1
               [[''+1'', ''+2'', ''+3'', ''+4'', ''+5'']] demo_world))
   \<and> out_file (snd (main_loop (demo_env escaping_client) 1 1
                       [[''+1'', ''+2'', ''+3'', ''+4'', ''+5'']] demo_world)) = None
   \<and> get_account_limit ''2026-11-03''
        (mgr (snd (main_loop (demo_env escaping_client) 1 1
                     [[''+1'', ''+2'', ''+3'', ''+4'', ''+5'']] demo_world))) ''+1000'' = 0
   \<and> get_names failing_client ''+3'' = Inr (Error Unexpected)"
proof -
  let ?ev = "demo_env escaping_client"
  let ?b = "[''+1'', ''+2'', ''+3'', ''+4'', ''+5'']"
  let ?acc = "\<lparr>phone_number = ''+1000'', request_pause_min = None, request_pause_max = None\<rparr>"
  let ?m1 = "(mgr demo_world)\<lparr>current_account_index := 0\<rparr>"
  let ?m2 = "?m1\<lparr>clients := [''+1000'' \<mapsto> True]\<rparr>"
  let ?evs = "[Lookup ''+1'', RequestPause 150, Lookup ''+2'', RequestPause 150, Lookup ''+3'']"
  have sel: "get_next_account (e_today ?ev) (mgr demo_world) (int (length ?b)) = Inr (Some ?acc, ?m1)"
    by (simp add: get_next_account_def demo_env_def demo_world_def
          get_used_def ACCOUNT_DAILY_LIMIT_def)
  have cli: "get_client (e_login_ok ?ev) ?m1 ?acc = Inr ?m2"
    by (simp add: get_client_def demo_env_def demo_world_def)
  have val: "validate_users (e_client ?ev (phone_number ?acc)) ?b
               (fst (request_pauses ?m2 ?acc)) (snd (request_pauses ?m2 ?acc)) (e_draw ?ev 1)
             = Inl (BaseExc, ?evs)"
    by code_simp
  have raises: "import_contacts failing_client (with_plus ''+3'') = RaisesException \<or>
                import_contacts failing_client (with_plus ''+3'') = RaisesTypeError"
    by (simp add: failing_client_def with_plus_def)
  note inst = escaping_exception_discards_batch[where ev = ?ev and w = demo_world and batch = ?b
         and account = ?acc and ?m1.0 = ?m1 and ?m2.0 = ?m2 and i = 1 and n = 1
         and e = BaseExc and evs = ?evs and rest = "[]" and phone = "''+1000''"
         and cl = failing_client and p = "''+3''"]
  from inst sel cli val obtain w1 where ab: "main_body ?ev 1 1 ?b demo_world = Abort BaseExc w1"
    by blast
  from inst[where w' = w1] ab
  have o: "out_file w1 = out_file demo_world"
    and q: "get_account_limit (e_today ?ev) (mgr w1) ''+1000''
              = get_account_limit (e_today ?ev) (mgr demo_world) ''+1000''"
    and l: "main_loop ?ev 1 1 [?b] demo_world = (Aborted BaseExc, w1)" by blast+
  from inst raises obtain err where g: "get_names failing_client ''+3'' = Inr (Error err)" by blast
  have "get_names failing_client ''+3'' = Inr (Error Unexpected)"
    using g by (simp add: get_names_def failing_client_def with_plus_def)
  moreover from o have "out_file w1 = None" by (simp add: demo_world_def)
  moreover from q have "get_account_limit ''2026-11-03'' (mgr w1) ''+1000'' = 0"
    by (simp add: demo_env_def demo_world_def get_account_limit_def get_used_def)
  ultimately show ?thesis using l by simp
qed

section \<open>De-duplication within a batch\<close>



section \<open>Pacing\<close>



section \<open>The output file only grows\<close>



end
